theory Spec2Isabelle
  imports Main "HOL-Library.Word" "HOL-Library.Multiset"
begin

unbundle bit_operations_syntax

section \<open>Data model of icsmap.c\<close>

type_synonym u8 = "8 word"
type_synonym u32 = "32 word"

text \<open>The status codes of icsmap.h, in the order of \<^verbatim>\<open>ICS_ERROR_CODES\<close>.\<close>

datatype ics_status = ICS_OK | ICS_FAILURE | ICS_NO_MEMORY | ICS_NOT_FOUND | ICS_EXISTS

text \<open>
  What C leaves undefined is an explicit outcome of the model: a read or a write outside
  every allocated object, a failed \<^verbatim>\<open>assert\<close> (the source is compiled with assertions,
  it never defines NDEBUG), and a division by zero.
\<close>

datatype fault = BadRead | BadWrite | AssertFail | DivByZero

text \<open>
  A byte pointer is modelled by what it points to: \<open>Some bs\<close> is a pointer into an
  allocated object, \<open>bs\<close> being the bytes from the pointer to the end of the object;
  \<open>None\<close> is an address outside every object, as \<^verbatim>\<open>NULL\<close> and the tombstone
  sentinel \<^verbatim>\<open>(map_entry)0xffffffff\<close> are.
\<close>

type_synonym ptr = "u8 list option"

text \<open>
  A slot of \<^verbatim>\<open>map->arr\<close> holds \<^verbatim>\<open>NULL\<close>, the tombstone sentinel or the address of a
  record that the map owns exclusively; the record's bytes stand for that address.
\<close>

datatype map_entry = Null | Tombstone | Record "u8 list"

text \<open>
  The caller's key resolver (\<^verbatim>\<open>get_key_fn\<close> of icsmap.h) reads the key structure it is
  given, \<^verbatim>\<open>keysize\<close> bytes, and returns the bytes to hash and compare; the length of the
  returned list is the size it reports. It may fault.
\<close>

type_synonym get_key_fn = "u8 list \<Rightarrow> fault + u8 list"

record icsmap =
  msize :: u32
  capacity :: u32
  keysize :: u32
  valsize :: u32
  get_key_fn :: "get_key_fn option"
  arr :: "map_entry list"

record icsmap_cfg =
  cfg_keysize :: u32
  cfg_valsize :: u32
  cfg_get_key :: "get_key_fn option"

definition INITIAL_SIZE :: u32 where
  "INITIAL_SIZE = 13"

definition LOAD_FACTOR :: u32 where
  "LOAD_FACTOR = 33"

text \<open>\<^verbatim>\<open>sizeof(map_entry)\<close>, the size of a pointer.\<close>

definition sizeof_map_entry :: u32 where
  "sizeof_map_entry = 8"

section \<open>General functions\<close>

definition ics_percent :: "u32 \<Rightarrow> u32 \<Rightarrow> fault + u32" where
  "ics_percent x y = (if y = 0 then Inl DivByZero else Inr (x * 100 div y))"

definition rd :: "ptr \<Rightarrow> nat \<Rightarrow> fault + u8" where
  "rd p i = (case p of None \<Rightarrow> Inl BadRead
     | Some bs \<Rightarrow> if i < length bs then Inr (bs ! i) else Inl BadRead)"

text \<open>
  \<^verbatim>\<open>ics_memcpy(dest + off, src, len)\<close>: the destination is an object of the model and an
  offset into it, and the updated object is returned.
\<close>

function ics_memcpy_loop :: "u8 list \<Rightarrow> nat \<Rightarrow> ptr \<Rightarrow> nat \<Rightarrow> nat \<Rightarrow> fault + u8 list" where
  "ics_memcpy_loop d off s len i =
     (if i < len then
        (case rd s i of Inl e \<Rightarrow> Inl e
         | Inr b \<Rightarrow> if off + i < length d then ics_memcpy_loop (d[off + i := b]) off s len (i + 1)
                    else Inl BadWrite)
      else Inr d)"
  by pat_completeness auto
termination
  by (relation "measure (\<lambda>(d, off, s, len, i). len - i)") auto

declare ics_memcpy_loop.simps [simp del]

definition ics_memcpy :: "u8 list \<Rightarrow> nat \<Rightarrow> ptr \<Rightarrow> nat \<Rightarrow> fault + u8 list" where
  "ics_memcpy d off s len = ics_memcpy_loop d off s len 0"

function ics_equal_loop :: "ptr \<Rightarrow> ptr \<Rightarrow> nat \<Rightarrow> nat \<Rightarrow> fault + bool" where
  "ics_equal_loop a b len i =
     (if i < len then
        (case rd a i of Inl e \<Rightarrow> Inl e
         | Inr x \<Rightarrow> (case rd b i of Inl e \<Rightarrow> Inl e
             | Inr y \<Rightarrow> if x \<noteq> y then Inr False else ics_equal_loop a b len (i + 1)))
      else Inr True)"
  by pat_completeness auto
termination
  by (relation "measure (\<lambda>(a, b, len, i). len - i)") auto

declare ics_equal_loop.simps [simp del]

definition ics_equal :: "ptr \<Rightarrow> ptr \<Rightarrow> nat \<Rightarrow> fault + bool" where
  "ics_equal a b len = ics_equal_loop a b len 0"

text \<open>
  The trial division of \<^verbatim>\<open>ics_is_prime\<close> on 32-bit unsigned integers: \<open>i * i\<close> and
  \<open>i + 6\<close> wrap around. The loop starts at 5 and steps by 6, so \<open>i\<close> and \<open>i + 2\<close>
  are odd and no division by zero occurs. A run that does not end is \<open>None\<close>.
\<close>

partial_function (option) ics_is_prime_loop :: "u32 \<Rightarrow> u32 \<Rightarrow> bool option" where
  "ics_is_prime_loop n i =
     (if i * i \<le> n then
        (if n mod i = 0 \<or> n mod (i + 2) = 0 then Some False
         else ics_is_prime_loop n (i + 6))
      else Some True)"

declare ics_is_prime_loop.simps [code]

definition ics_is_prime :: "u32 \<Rightarrow> bool option" where
  "ics_is_prime n =
     (if n \<le> 1 then Some False
      else if n = 3 then Some True
      else if n mod 2 = 0 \<or> n mod 3 = 0 then Some False
      else ics_is_prime_loop n 5)"

partial_function (option) ics_next_prime_loop :: "u32 \<Rightarrow> u32 option" where
  "ics_next_prime_loop prime =
     Option.bind (ics_is_prime (prime + 1))
       (\<lambda>p. if \<not> p then ics_next_prime_loop (prime + 1) else Some (prime + 1))"

declare ics_next_prime_loop.simps [code]

definition ics_next_prime :: "u32 \<Rightarrow> u32 option" where
  "ics_next_prime start = (if start \<le> 1 then Some 2 else ics_next_prime_loop start)"

section \<open>Hashing and key indirection\<close>

function hash_fn_loop :: "ptr \<Rightarrow> nat \<Rightarrow> nat \<Rightarrow> u32 \<Rightarrow> fault + u32" where
  "hash_fn_loop key len i hash =
     (if i < len then
        (case rd key i of Inl e \<Rightarrow> Inl e
         | Inr b \<Rightarrow>
             (let hash1 = push_bit 4 hash + ucast b;
                  x = hash1 AND 0xF0000000;
                  hash2 = (if x \<noteq> 0 then hash1 XOR drop_bit 24 x else hash1)
              in hash_fn_loop key len (i + 1) (hash2 AND NOT x)))
      else Inr hash)"
  by pat_completeness auto
termination
  by (relation "measure (\<lambda>(key, len, i, hash). len - i)") auto

declare hash_fn_loop.simps [simp del]

definition hash_fn :: "ptr \<Rightarrow> nat \<Rightarrow> fault + u32" where
  "hash_fn key len = hash_fn_loop key len 0 0"

definition hash :: "icsmap \<Rightarrow> ptr \<Rightarrow> nat \<Rightarrow> fault + u32" where
  "hash m key ksz =
     (case hash_fn key ksz of Inl e \<Rightarrow> Inl e
      | Inr h \<Rightarrow> if capacity m = 0 then Inl DivByZero else Inr (h mod capacity m))"

definition entry_size :: "icsmap \<Rightarrow> nat" where
  "entry_size m = unat (keysize m + valsize m)"

definition map_entry_key :: "icsmap \<Rightarrow> map_entry \<Rightarrow> ptr" where
  "map_entry_key m entry = (case entry of Record bs \<Rightarrow> Some bs | _ \<Rightarrow> None)"

definition map_entry_val :: "icsmap \<Rightarrow> map_entry \<Rightarrow> ptr" where
  "map_entry_val m entry =
     (case entry of Record bs \<Rightarrow> Some (drop (unat (keysize m)) bs) | _ \<Rightarrow> None)"

definition is_deleted :: "map_entry \<Rightarrow> bool" where
  "is_deleted entry = (entry = Tombstone)"

definition is_empty :: "map_entry \<Rightarrow> bool" where
  "is_empty entry = (entry = Null)"

text \<open>
  Without a resolver \<^verbatim>\<open>get_key\<close> returns the pointer it was given and reads nothing.
  With one, the resolver is called on the pointer and reads the key structure there,
  which is an invalid read at the tombstone sentinel.
\<close>

definition get_key :: "icsmap \<Rightarrow> ptr \<Rightarrow> fault + (ptr \<times> nat)" where
  "get_key m key =
     (case get_key_fn m of
        None \<Rightarrow> Inr (key, unat (keysize m))
      | Some f \<Rightarrow>
          (case key of None \<Rightarrow> Inl BadRead
           | Some bs \<Rightarrow>
               (case f (take (unat (keysize m)) bs) of Inl e \<Rightarrow> Inl e
                | Inr v \<Rightarrow> Inr (Some v, length v))))"

definition is_overloaded :: "icsmap \<Rightarrow> fault + bool" where
  "is_overloaded m =
     (case ics_percent (msize m) (capacity m) of Inl e \<Rightarrow> Inl e
      | Inr p \<Rightarrow> Inr (p > LOAD_FACTOR))"

section \<open>The two probes\<close>

text \<open>
  Both probes walk \<^verbatim>\<open>map->arr\<close> from the hash index. An index beyond the array is an
  invalid read. A probe that never leaves its loop is \<open>None\<close>. \<^verbatim>\<open>find_key\<close> writes
  \<^verbatim>\<open>*index\<close> only when it finds the key.
\<close>

partial_function (option) find_key_loop ::
  "icsmap \<Rightarrow> ptr \<Rightarrow> nat \<Rightarrow> u32 \<Rightarrow> u32 \<Rightarrow> (fault + ics_status \<times> u32 option) option" where
  "find_key_loop m k ksz hash_index i =
     (if length (arr m) \<le> unat i then Some (Inl BadRead)
      else if is_empty (arr m ! unat i) then Some (Inr (ICS_NOT_FOUND, None))
      else
        (case get_key m (map_entry_key m (arr m ! unat i)) of Inl e \<Rightarrow> Some (Inl e)
         | Inr (candidate, candidate_size) \<Rightarrow>
             if candidate_size \<noteq> ksz then Some (Inl AssertFail)
             else
               (case ics_equal candidate k ksz of Inl e \<Rightarrow> Some (Inl e)
                | Inr eq \<Rightarrow>
                    if eq then Some (Inr (ICS_OK, Some i))
                    else if (i + 1) mod capacity m = hash_index
                      then Some (Inr (ICS_NOT_FOUND, None))
                    else find_key_loop m k ksz hash_index ((i + 1) mod capacity m))))"

declare find_key_loop.simps [code]

definition find_key :: "icsmap \<Rightarrow> ptr \<Rightarrow> (fault + ics_status \<times> u32 option) option" where
  "find_key m key =
     (case get_key m key of Inl e \<Rightarrow> Some (Inl e)
      | Inr (k, ksz) \<Rightarrow>
          (case hash m k ksz of Inl e \<Rightarrow> Some (Inl e)
           | Inr hash_index \<Rightarrow> find_key_loop m k ksz hash_index hash_index))"

partial_function (option) find_hole_loop ::
  "icsmap \<Rightarrow> ptr \<Rightarrow> nat \<Rightarrow> u32 \<Rightarrow> (fault + ics_status \<times> u32) option" where
  "find_hole_loop m k ksz i =
     (if length (arr m) \<le> unat i then Some (Inl BadRead)
      else if is_empty (arr m ! unat i) then Some (Inr (ICS_OK, i))
      else
        (case get_key m (map_entry_key m (arr m ! unat i)) of Inl e \<Rightarrow> Some (Inl e)
         | Inr (candidate, candidate_size) \<Rightarrow>
             if candidate_size \<noteq> ksz then Some (Inl AssertFail)
             else if is_deleted (arr m ! unat i) then Some (Inr (ICS_OK, i))
             else
               (case ics_equal candidate k ksz of Inl e \<Rightarrow> Some (Inl e)
                | Inr eq \<Rightarrow>
                    if eq then Some (Inr (ICS_EXISTS, i))
                    else find_hole_loop m k ksz ((i + 1) mod capacity m))))"

declare find_hole_loop.simps [code]

definition find_hole :: "icsmap \<Rightarrow> ptr \<Rightarrow> (fault + ics_status \<times> u32) option" where
  "find_hole m key =
     (case get_key m key of Inl e \<Rightarrow> Some (Inl e)
      | Inr (k, ksz) \<Rightarrow>
          (case hash m k ksz of Inl e \<Rightarrow> Some (Inl e)
           | Inr hash_index \<Rightarrow> find_hole_loop m k ksz hash_index))"

section \<open>Initialisation, growth and the public operations\<close>

text \<open>
  Each \<^verbatim>\<open>malloc\<close> is a Boolean argument: whether that allocation succeeds. A slot array
  of \<open>n\<close> bytes set to zero is \<open>n div 8\<close> slots holding \<^verbatim>\<open>NULL\<close>.
\<close>

definition icsmap_init :: "icsmap_cfg \<Rightarrow> bool \<Rightarrow> bool \<Rightarrow> ics_status \<times> icsmap option" where
  "icsmap_init cfg alloc_map alloc_arr =
     (if \<not> alloc_map then (ICS_NO_MEMORY, None)
      else if \<not> alloc_arr then (ICS_NO_MEMORY, None)
      else (ICS_OK, Some \<lparr>msize = 0, capacity = INITIAL_SIZE,
              keysize = cfg_keysize cfg, valsize = cfg_valsize cfg,
              get_key_fn = cfg_get_key cfg,
              arr = replicate (unat (sizeof_map_entry * INITIAL_SIZE) div unat sizeof_map_entry) Null\<rparr>))"

function resize_loop ::
  "map_entry list \<Rightarrow> u32 \<Rightarrow> nat \<Rightarrow> icsmap \<Rightarrow> (fault + ics_status \<times> icsmap) option" where
  "resize_loop old_arr old_cap i m =
     (if i < unat old_cap then
        (if length old_arr \<le> i then Some (Inl BadRead)
         else if \<not> is_empty (old_arr ! i) \<and> \<not> is_deleted (old_arr ! i) then
           (case find_hole m (map_entry_key m (old_arr ! i)) of None \<Rightarrow> None
            | Some (Inl e) \<Rightarrow> Some (Inl e)
            | Some (Inr (status, hash_index)) \<Rightarrow>
                if status \<noteq> ICS_OK then Some (Inr (status, m))
                else resize_loop old_arr old_cap (i + 1)
                       (m\<lparr>arr := (arr m)[unat hash_index := old_arr ! i]\<rparr>))
         else resize_loop old_arr old_cap (i + 1) m)
      else Some (Inr (ICS_OK, m)))"
  by pat_completeness auto
termination
  by (relation "measure (\<lambda>(old_arr, old_cap, i, m). unat old_cap - i)") auto

declare resize_loop.simps [simp del]

text \<open>
  \<^verbatim>\<open>resize\<close> stores the new capacity in the map before it allocates, and on a failed
  allocation puts back the old array only.
\<close>

definition resize :: "icsmap \<Rightarrow> bool \<Rightarrow> (fault + ics_status \<times> icsmap) option" where
  "resize m alloc_arr =
     (case ics_next_prime (capacity m * 2) of None \<Rightarrow> None
      | Some new_cap \<Rightarrow>
          (let m1 = m\<lparr>capacity := new_cap\<rparr>;
               arr_size = sizeof_map_entry * capacity m1
           in if \<not> alloc_arr then Some (Inr (ICS_NO_MEMORY, m1))
              else resize_loop (arr m) (capacity m) 0
                     (m1\<lparr>arr := replicate (unat arr_size div unat sizeof_map_entry) Null\<rparr>)))"

definition init_map_entry :: "icsmap \<Rightarrow> u8 list \<Rightarrow> ptr \<Rightarrow> ptr \<Rightarrow> fault + u8 list" where
  "init_map_entry m entry key val =
     (case ics_memcpy entry 0 key (unat (keysize m)) of Inl e \<Rightarrow> Inl e
      | Inr entry1 \<Rightarrow> ics_memcpy entry1 (unat (keysize m)) val (unat (valsize m)))"

text \<open>
  A record fresh from \<^verbatim>\<open>malloc\<close> has \<open>entry_size\<close> bytes of no known content; they are
  zero here, and \<^verbatim>\<open>init_map_entry\<close> overwrites every one of them or faults.
\<close>

definition icsmap_put ::
  "icsmap \<Rightarrow> ptr \<Rightarrow> ptr \<Rightarrow> bool \<Rightarrow> bool \<Rightarrow> (fault + ics_status \<times> icsmap) option" where
  "icsmap_put m key val alloc_arr alloc_entry =
     (case is_overloaded m of Inl e \<Rightarrow> Some (Inl e)
      | Inr overloaded \<Rightarrow>
          (case (if overloaded then resize m alloc_arr else Some (Inr (ICS_OK, m))) of
             None \<Rightarrow> None
           | Some (Inl e) \<Rightarrow> Some (Inl e)
           | Some (Inr (status, m1)) \<Rightarrow>
               if status \<noteq> ICS_OK then Some (Inr (status, m1))
               else
                 (case find_hole m1 key of None \<Rightarrow> None
                  | Some (Inl e) \<Rightarrow> Some (Inl e)
                  | Some (Inr (status2, index)) \<Rightarrow>
                      if status2 = ICS_EXISTS then
                        (case arr m1 ! unat index of
                           Record bs \<Rightarrow>
                             (case init_map_entry m1 bs key val of Inl e \<Rightarrow> Some (Inl e)
                              | Inr bs' \<Rightarrow>
                                  Some (Inr (ICS_OK, m1\<lparr>arr := (arr m1)[unat index := Record bs']\<rparr>)))
                         | _ \<Rightarrow> Some (Inl BadWrite))
                      else if \<not> alloc_entry then Some (Inr (ICS_NO_MEMORY, m1))
                      else
                        (case init_map_entry m1 (replicate (entry_size m1) 0) key val of
                           Inl e \<Rightarrow> Some (Inl e)
                         | Inr bs' \<Rightarrow>
                             Some (Inr (ICS_OK, m1\<lparr>arr := (arr m1)[unat index := Record bs'],
                                                   msize := msize m1 + 1\<rparr>))))))"

text \<open>\<^verbatim>\<open>icsmap_get\<close> returns its status and the caller's \<^verbatim>\<open>out\<close> buffer after the call.\<close>

definition icsmap_get ::
  "icsmap \<Rightarrow> ptr \<Rightarrow> u8 list \<Rightarrow> (fault + ics_status \<times> u8 list) option" where
  "icsmap_get m key out =
     (case find_key m key of None \<Rightarrow> None
      | Some (Inl e) \<Rightarrow> Some (Inl e)
      | Some (Inr (status, index)) \<Rightarrow>
          if status \<noteq> ICS_OK then Some (Inr (status, out))
          else
            (case index of None \<Rightarrow> Some (Inl BadRead)
             | Some i \<Rightarrow>
                 if \<not> (\<not> is_empty (arr m ! unat i) \<and> \<not> is_deleted (arr m ! unat i))
                   then Some (Inl AssertFail)
                 else
                   (case ics_memcpy out 0 (map_entry_val m (arr m ! unat i)) (unat (valsize m)) of
                      Inl e \<Rightarrow> Some (Inl e)
                    | Inr out' \<Rightarrow> Some (Inr (ICS_OK, out')))))"

definition icsmap_remove :: "icsmap \<Rightarrow> ptr \<Rightarrow> (fault + ics_status \<times> icsmap) option" where
  "icsmap_remove m key =
     (case find_key m key of None \<Rightarrow> None
      | Some (Inl e) \<Rightarrow> Some (Inl e)
      | Some (Inr (status, index)) \<Rightarrow>
          if status \<noteq> ICS_OK then Some (Inr (status, m))
          else
            (case index of None \<Rightarrow> Some (Inl BadRead)
             | Some i \<Rightarrow>
                 if \<not> (\<not> is_empty (arr m ! unat i) \<and> \<not> is_deleted (arr m ! unat i))
                   then Some (Inl AssertFail)
                 else Some (Inr (ICS_OK, m\<lparr>arr := (arr m)[unat i := Tombstone],
                                          msize := msize m - 1\<rparr>))))"

definition icsmap_contains :: "icsmap \<Rightarrow> ptr \<Rightarrow> (fault + ics_status) option" where
  "icsmap_contains m key =
     (case find_key m key of None \<Rightarrow> None
      | Some (Inl e) \<Rightarrow> Some (Inl e)
      | Some (Inr (status, index)) \<Rightarrow>
          Some (Inr (if status = ICS_NOT_FOUND then ICS_NOT_FOUND else ICS_EXISTS)))"

definition icsmap_count :: "icsmap \<Rightarrow> u32" where
  "icsmap_count m = msize m"

section \<open>Iteration and export\<close>







section \<open>Sequences of calls\<close>

text \<open>
  A client's calls that change the map, with the outcome of each \<^verbatim>\<open>malloc\<close> the call
  may reach. \<open>run\<close> gives the status of every call and the map after the last one,
  provided each call returned.
\<close>

datatype op = Put "u8 list" "u8 list" bool bool | Remove "u8 list"

fun apply_op :: "icsmap \<Rightarrow> op \<Rightarrow> (fault + ics_status \<times> icsmap) option" where
  "apply_op m (Put key val alloc_arr alloc_entry) =
     icsmap_put m (Some key) (Some val) alloc_arr alloc_entry"
| "apply_op m (Remove key) = icsmap_remove m (Some key)"

fun run :: "icsmap \<Rightarrow> op list \<Rightarrow> (ics_status list \<times> icsmap) option" where
  "run m [] = Some ([], m)"
| "run m (x # xs) =
     (case apply_op m x of
        Some (Inr (status, m')) \<Rightarrow>
          (case run m' xs of Some (sts, m'') \<Rightarrow> Some (status # sts, m'') | None \<Rightarrow> None)
      | _ \<Rightarrow> None)"

text \<open>
  The map of examples/ex_basic_ops.c: keys of \<^verbatim>\<open>sizeof(char)\<close>, values of
  \<^verbatim>\<open>sizeof(int)\<close>, no resolver.
\<close>

definition char_int_map :: "u32 \<Rightarrow> u32 \<Rightarrow> map_entry list \<Rightarrow> icsmap" where
  "char_int_map n c a =
     \<lparr>msize = n, capacity = c, keysize = 1, valsize = 4, get_key_fn = None, arr = a\<rparr>"

section \<open>Notions of the specification\<close>


text \<open>
  What \<^verbatim>\<open>find_hole\<close> has seen at the slot it returns: an empty or deleted slot with
  ICS_OK, a record whose key view equals the searched one with ICS_EXISTS.
\<close>

definition hole_result :: "icsmap \<Rightarrow> ptr \<Rightarrow> nat \<Rightarrow> fault + ics_status \<times> u32 \<Rightarrow> bool" where
  "hole_result m k ksz r =
     (case r of Inl e \<Rightarrow> True
      | Inr (st, j) \<Rightarrow>
          unat j < length (arr m) \<and>
          (st = ICS_OK \<and> (arr m ! unat j = Null \<or> arr m ! unat j = Tombstone)
           \<or> st = ICS_EXISTS \<and> (\<exists>bs cand. arr m ! unat j = Record bs
                 \<and> get_key m (Some bs) = Inr (cand, ksz) \<and> ics_equal cand k ksz = Inr True)))"

text \<open>
  A map with a resolver: the key structure has two bytes, and the resolver returns the
  first one as the key to hash and compare.
\<close>

definition first_byte_key :: get_key_fn where
  "first_byte_key bs = Inr (take 1 bs)"

definition tagged_map :: "u32 \<Rightarrow> u32 \<Rightarrow> map_entry list \<Rightarrow> icsmap" where
  "tagged_map n c a =
     \<lparr>msize = n, capacity = c, keysize = 2, valsize = 1, get_key_fn = Some first_byte_key, arr = a\<rparr>"





text \<open>
  The probe sequence from a slot: \<open>probe_slot m i s\<close> is the slot reached after \<open>s\<close>
  steps of \<^verbatim>\<open>i = (i + 1) % map->capacity\<close>. A slot lets \<^verbatim>\<open>find_hole\<close> pass when it holds
  a record whose key view differs from the searched one; at any other slot the probe
  stops with \<open>hole_stop\<close>. Likewise \<open>pass_key\<close> and \<open>key_stop\<close> for \<^verbatim>\<open>find_key\<close>.
\<close>

definition probe_slot :: "icsmap \<Rightarrow> u32 \<Rightarrow> nat \<Rightarrow> u32" where
  "probe_slot m i s = ((\<lambda>j. (j + 1) mod capacity m) ^^ s) i"





section \<open>Evaluation of the model\<close>

lemma replicate_numeral: "replicate (numeral n) x = x # replicate (pred_numeral n) x"
  by (simp add: numeral_eq_Suc)

lemma list_update_numeral: "(x # xs)[numeral n := y] = x # xs[pred_numeral n := y]"
  by (simp add: numeral_eq_Suc)

lemmas ev = icsmap_put_def icsmap_get_def icsmap_remove_def icsmap_contains_def icsmap_count_def
  find_hole_def find_key_def find_hole_loop.simps find_key_loop.simps
  get_key_def hash_def hash_fn_def hash_fn_loop.simps
  is_overloaded_def ics_percent_def LOAD_FACTOR_def INITIAL_SIZE_def sizeof_map_entry_def
  icsmap_init_def init_map_entry_def ics_memcpy_def ics_memcpy_loop.simps
  ics_equal_def ics_equal_loop.simps rd_def map_entry_key_def map_entry_val_def
  is_empty_def is_deleted_def entry_size_def resize_def resize_loop.simps
  ics_next_prime_def ics_next_prime_loop.simps ics_is_prime_def ics_is_prime_loop.simps
  word_le_nat_alt word_less_nat_alt replicate_numeral list_update_numeral char_int_map_def

lemma init_char_int:
  "icsmap_init \<lparr>cfg_keysize = 1, cfg_valsize = 4, cfg_get_key = None\<rparr> True True =
     (ICS_OK, Some (char_int_map 0 13 (replicate 13 Null)))"
  by (simp add: ev)

section \<open>The scenario of the specification\<close>

lemma abc_run:
  "run (char_int_map 0 13 (replicate 13 Null))
     [Put [97] [1, 0, 0, 0] True True, Put [98] [2, 0, 0, 0] True True,
      Put [97] [3, 0, 0, 0] True True] =
   Some ([ICS_OK, ICS_OK, ICS_OK],
     char_int_map 2 13 [Null, Null, Null, Null, Null, Null, Record [97, 3, 0, 0, 0],
       Record [98, 2, 0, 0, 0], Null, Null, Null, Null, Null])"
  by (simp add: ev)

text \<open>
  C10. On a map initialised with keysize 1 and valsize 4, put('a',1); put('b',2);
  put('a',3) (the keys are the bytes 97 and 98, the values the little-endian bytes of the
  ints) all return ICS_OK and leave count = 2; get('a') copies out 3, get('b') copies
  out 2, and get('c') returns ICS_NOT_FOUND and leaves the out buffer as it was.
\<close>

theorem scenario_put_a_b_a:
  "\<exists>m0 m. icsmap_init \<lparr>cfg_keysize = 1, cfg_valsize = 4, cfg_get_key = None\<rparr> True True
             = (ICS_OK, Some m0)
     \<and> run m0 [Put [97] [1, 0, 0, 0] True True, Put [98] [2, 0, 0, 0] True True,
                Put [97] [3, 0, 0, 0] True True] = Some ([ICS_OK, ICS_OK, ICS_OK], m)
     \<and> icsmap_count m = 2
     \<and> icsmap_get m (Some [97]) [0, 0, 0, 0] = Some (Inr (ICS_OK, [3, 0, 0, 0]))
     \<and> icsmap_get m (Some [98]) [0, 0, 0, 0] = Some (Inr (ICS_OK, [2, 0, 0, 0]))
     \<and> icsmap_get m (Some [99]) [0, 0, 0, 0] = Some (Inr (ICS_NOT_FOUND, [0, 0, 0, 0]))"
proof -
  let ?m = "char_int_map 2 13 [Null, Null, Null, Null, Null, Null, Record [97, 3, 0, 0, 0],
       Record [98, 2, 0, 0, 0], Null, Null, Null, Null, Null]"
  have "icsmap_count ?m = 2"
    by (simp add: ev)
  moreover have "icsmap_get ?m (Some [97]) [0, 0, 0, 0] = Some (Inr (ICS_OK, [3, 0, 0, 0]))"
    by (simp add: ev)
  moreover have "icsmap_get ?m (Some [98]) [0, 0, 0, 0] = Some (Inr (ICS_OK, [2, 0, 0, 0]))"
    by (simp add: ev)
  moreover have "icsmap_get ?m (Some [99]) [0, 0, 0, 0] = Some (Inr (ICS_NOT_FOUND, [0, 0, 0, 0]))"
    by (simp add: ev)
  ultimately show ?thesis
    using init_char_int abc_run by blast
qed

section \<open>Tombstones in the probes\<close>

text \<open>
  C1. The claim asks put to find a live key that lies behind a tombstone of its probe
  sequence and to overwrite it, count unchanged. \<^verbatim>\<open>find_hole\<close> returns at the first
  tombstone instead. The keys 'a' (97) and 'n' (110) both hash to slot 6 of 13: after
  put('a'), put('n'), remove('a'), slot 6 is a tombstone and 'n' lives in slot 7; the
  next put('n', 3) returns ICS_OK, stores a second record for 'n' in slot 6 and raises
  count from 1 to 2.
\<close>

theorem put_behind_tombstone_duplicates:
  "run (char_int_map 0 13 (replicate 13 Null))
     [Put [97] [1, 0, 0, 0] True True, Put [110] [2, 0, 0, 0] True True, Remove [97],
      Put [110] [3, 0, 0, 0] True True] =
   Some ([ICS_OK, ICS_OK, ICS_OK, ICS_OK],
     char_int_map 2 13 [Null, Null, Null, Null, Null, Null, Record [110, 3, 0, 0, 0],
       Record [110, 2, 0, 0, 0], Null, Null, Null, Null, Null])"
  by (simp add: ev)

text \<open>
  C2. The claim asks \<^verbatim>\<open>find_key\<close> to pass over a tombstone without comparing keys, so
  that get after remove is ICS_NOT_FOUND. \<^verbatim>\<open>find_key\<close> tests \<^verbatim>\<open>is_empty\<close> only and
  hands the tombstone sentinel to \<^verbatim>\<open>ics_equal\<close>, which reads through it: after
  put('a'), remove('a') the calls get('a') and remove('n') are invalid reads, not
  ICS_NOT_FOUND.
\<close>

theorem get_after_remove_reads_tombstone:
  "run (char_int_map 0 13 (replicate 13 Null)) [Put [97] [1, 0, 0, 0] True True, Remove [97]] =
     Some ([ICS_OK, ICS_OK],
       char_int_map 0 13
         [Null, Null, Null, Null, Null, Null, Tombstone, Null, Null, Null, Null, Null, Null])
   \<and> icsmap_get (char_int_map 0 13
         [Null, Null, Null, Null, Null, Null, Tombstone, Null, Null, Null, Null, Null, Null])
        (Some [97]) [0, 0, 0, 0] = Some (Inl BadRead)
   \<and> icsmap_remove (char_int_map 0 13
         [Null, Null, Null, Null, Null, Null, Tombstone, Null, Null, Null, Null, Null, Null])
        (Some [110]) = Some (Inl BadRead)"
  by (simp add: ev)

lemma five_puts_run:
  "run (char_int_map 0 13 (replicate 13 Null))
     [Put [97] [1, 0, 0, 0] True True, Put [98] [1, 0, 0, 0] True True,
      Put [99] [1, 0, 0, 0] True True, Put [100] [1, 0, 0, 0] True True] =
   Some ([ICS_OK, ICS_OK, ICS_OK, ICS_OK],
     char_int_map 4 13 [Null, Null, Null, Null, Null, Null, Record [97, 1, 0, 0, 0],
       Record [98, 1, 0, 0, 0], Record [99, 1, 0, 0, 0], Record [100, 1, 0, 0, 0], Null, Null, Null])"
  by (simp add: ev)

section \<open>The load factor\<close>




section \<open>The next prime\<close>













section \<open>Byte buffers\<close>

lemma rd_Some: "rd (Some bs) i = (if i < length bs then Inr (bs ! i) else Inl BadRead)"
  by (simp add: rd_def)

lemma rd_Inr_D: "rd p i = Inr x \<Longrightarrow> \<exists>bs. p = Some bs \<and> i < length bs \<and> x = bs ! i"
  by (auto simp: rd_def split: option.splits if_splits)

lemma drop_take_Cons:
  "i < n \<Longrightarrow> n \<le> length s \<Longrightarrow> drop i (take n s) = s ! i # drop (Suc i) (take n s)"
  using Cons_nth_drop_Suc [of i "take n s"] by simp

lemma ics_equal_loop_buffers:
  "n \<le> length as \<Longrightarrow> n \<le> length bs \<Longrightarrow> i \<le> n \<Longrightarrow>
     ics_equal_loop (Some as) (Some bs) n i = Inr (drop i (take n as) = drop i (take n bs))"
proof (induction "n - i" arbitrary: i)
  case 0
  then show ?case by (simp add: ics_equal_loop.simps)
next
  case (Suc d)
  then have lt: "i < n" by simp
  have da: "drop i (take n as) = as ! i # drop (Suc i) (take n as)"
    using lt Suc.prems(1) by (rule drop_take_Cons)
  have db: "drop i (take n bs) = bs ! i # drop (Suc i) (take n bs)"
    using lt Suc.prems(2) by (rule drop_take_Cons)
  have "ics_equal_loop (Some as) (Some bs) n (i + 1)
          = Inr (drop (i + 1) (take n as) = drop (i + 1) (take n bs))"
    using Suc by (intro Suc.hyps) auto
  then show ?case
    using lt Suc.prems by (subst ics_equal_loop.simps) (simp add: rd_Some da db)
qed

lemma ics_equal_buffers:
  "n \<le> length as \<Longrightarrow> n \<le> length bs \<Longrightarrow>
     ics_equal (Some as) (Some bs) n = Inr (take n as = take n bs)"
  using ics_equal_loop_buffers [of n as bs 0] by (simp add: ics_equal_def)

lemma ics_equal_loop_True_D:
  "ics_equal_loop a b n i = Inr True \<Longrightarrow> i < n \<Longrightarrow>
     \<exists>as bs. a = Some as \<and> b = Some bs \<and> n \<le> length as \<and> n \<le> length bs"
proof (induction "n - i" arbitrary: i)
  case 0
  then show ?case by simp
next
  case (Suc d)
  from Suc.prems obtain x y where x: "rd a i = Inr x" and y: "rd b i = Inr y"
    and rest: "ics_equal_loop a b n (i + 1) = Inr True"
    by (subst (asm) ics_equal_loop.simps) (auto split: sum.splits if_splits)
  from x y obtain as bs where ab: "a = Some as" "i < length as" "b = Some bs" "i < length bs"
    by (auto dest!: rd_Inr_D)
  show ?case
  proof (cases "i + 1 < n")
    case True
    then show ?thesis using Suc.hyps(1) [of "i + 1"] Suc.hyps(2) rest by auto
  next
    case False
    then have "n = i + 1" using Suc.prems(2) by simp
    then show ?thesis using ab by auto
  qed
qed

lemma ics_equal_True_D:
  assumes "ics_equal a b n = Inr True" and "0 < n"
  shows "\<exists>as bs. a = Some as \<and> b = Some bs \<and> n \<le> length as \<and> n \<le> length bs
           \<and> take n as = take n bs"
proof -
  from assms obtain as bs where ab: "a = Some as" "b = Some bs" "n \<le> length as" "n \<le> length bs"
    using ics_equal_loop_True_D [of a b n 0] by (auto simp: ics_equal_def)
  then show ?thesis using assms(1) ics_equal_buffers [of n as bs] by simp
qed

lemma ics_memcpy_loop_buffers:
  "n \<le> length s \<Longrightarrow> off + n \<le> length d \<Longrightarrow> i \<le> n \<Longrightarrow>
     ics_memcpy_loop d off (Some s) n i
       = Inr (take (off + i) d @ drop i (take n s) @ drop (off + n) d)"
proof (induction "n - i" arbitrary: i d)
  case 0
  then show ?case by (simp add: ics_memcpy_loop.simps)
next
  case (Suc k)
  then have lt: "i < n" by simp
  let ?d = "d[off + i := s ! i]"
  have "ics_memcpy_loop ?d off (Some s) n (i + 1)
          = Inr (take (off + (i + 1)) ?d @ drop (i + 1) (take n s) @ drop (off + n) ?d)"
    using Suc by (intro Suc.hyps) auto
  moreover have "take (off + (i + 1)) ?d = take (off + i) d @ [s ! i]"
    using lt Suc.prems(2) by (simp add: take_Suc_conv_app_nth)
  moreover have "drop (off + n) ?d = drop (off + n) d"
    using lt by simp
  moreover have "drop i (take n s) = s ! i # drop (i + 1) (take n s)"
    using drop_take_Cons [OF lt Suc.prems(1)] by simp
  ultimately show ?case
    using lt Suc.prems by (subst ics_memcpy_loop.simps) (simp add: rd_Some)
qed

lemma ics_memcpy_buffers:
  "n \<le> length s \<Longrightarrow> off + n \<le> length d \<Longrightarrow>
     ics_memcpy d off (Some s) n = Inr (take off d @ take n s @ drop (off + n) d)"
  using ics_memcpy_loop_buffers [of n s off d 0] by (simp add: ics_memcpy_def)

lemma init_map_entry_buffers:
  assumes "unat (keysize m) \<le> length key" and "unat (valsize m) \<le> length val"
    and "unat (keysize m) + unat (valsize m) \<le> length bs"
  shows "init_map_entry m bs (Some key) (Some val)
           = Inr (take (unat (keysize m)) key @ take (unat (valsize m)) val
                    @ drop (unat (keysize m) + unat (valsize m)) bs)"
  using assms by (simp add: init_map_entry_def ics_memcpy_buffers ac_simps)

lemma find_hole_loop_result_aux:
  assumes "find_hole_loop m k ksz i = Some r"
  shows "hole_result m k ksz r"
proof (rule find_hole_loop.raw_induct [where P = "\<lambda>m k ksz i r. hole_result m k ksz r", OF _ assms])
  fix f m k ksz i r
  assume IH: "\<And>m k ksz i r. f m k ksz i = Some r \<Longrightarrow> hole_result m k ksz r"
    and body: "(if length (arr m) \<le> unat i then Some (Inl BadRead)
      else if is_empty (arr m ! unat i) then Some (Inr (ICS_OK, i))
      else
        (case get_key m (map_entry_key m (arr m ! unat i)) of Inl e \<Rightarrow> Some (Inl e)
         | Inr (candidate, candidate_size) \<Rightarrow>
             if candidate_size \<noteq> ksz then Some (Inl AssertFail)
             else if is_deleted (arr m ! unat i) then Some (Inr (ICS_OK, i))
             else
               (case ics_equal candidate k ksz of Inl e \<Rightarrow> Some (Inl e)
                | Inr eq \<Rightarrow>
                    if eq then Some (Inr (ICS_EXISTS, i))
                    else f m k ksz ((i + 1) mod capacity m)))) = Some r"
  show "hole_result m k ksz r"
  proof (cases "f m k ksz ((i + 1) mod capacity m) = Some r")
    case True
    then show ?thesis by (rule IH)
  next
    case False
    with body show ?thesis
      by (cases "arr m ! unat i")
        (auto simp: hole_result_def is_empty_def is_deleted_def map_entry_key_def
              split: if_splits sum.splits prod.splits)
  qed
qed

lemma find_hole_loop_result:
  "find_hole_loop m k ksz i = Some (Inr (st, j)) \<Longrightarrow>
     unat j < length (arr m) \<and>
     (st = ICS_OK \<and> (arr m ! unat j = Null \<or> arr m ! unat j = Tombstone)
      \<or> st = ICS_EXISTS \<and> (\<exists>bs cand. arr m ! unat j = Record bs
            \<and> get_key m (Some bs) = Inr (cand, ksz) \<and> ics_equal cand k ksz = Inr True))"
  using find_hole_loop_result_aux [of m k ksz i "Inr (st, j)"] by (simp add: hole_result_def)

section \<open>Updating an existing key\<close>

text \<open>
  C4, as stated, fails in two ways. With a resolver, the keys [1, 7] and [1, 9] have the
  same view [1]; put of the second on a map holding the first returns ICS_OK and
  \<^verbatim>\<open>init_map_entry\<close> copies the supplied key over the stored one, whose bytes change
  from [1, 7] to [1, 9]. And a put of an existing key on an overloaded map resizes first,
  which changes the capacity and the place of every record.
\<close>

theorem put_existing_changes_key_bytes_and_layout:
  "icsmap_put (tagged_map 0 13 (replicate 13 Null)) (Some [1, 7]) (Some [5]) True True =
     Some (Inr (ICS_OK, tagged_map 1 13
       [Null, Record [1, 7, 5], Null, Null, Null, Null, Null, Null, Null, Null, Null, Null, Null]))
   \<and> find_hole (tagged_map 1 13
       [Null, Record [1, 7, 5], Null, Null, Null, Null, Null, Null, Null, Null, Null, Null, Null])
       (Some [1, 9]) = Some (Inr (ICS_EXISTS, 1))
   \<and> icsmap_put (tagged_map 1 13
       [Null, Record [1, 7, 5], Null, Null, Null, Null, Null, Null, Null, Null, Null, Null, Null])
       (Some [1, 9]) (Some [6]) True True =
     Some (Inr (ICS_OK, tagged_map 1 13
       [Null, Record [1, 9, 6], Null, Null, Null, Null, Null, Null, Null, Null, Null, Null, Null]))
   \<and> find_hole (char_int_map 5 13 [Null, Null, Null, Null, Null, Null, Record [97, 1, 0, 0, 0],
       Record [98, 1, 0, 0, 0], Record [99, 1, 0, 0, 0], Record [100, 1, 0, 0, 0],
       Record [101, 1, 0, 0, 0], Null, Null]) (Some [97]) = Some (Inr (ICS_EXISTS, 6))
   \<and> icsmap_put (char_int_map 5 13 [Null, Null, Null, Null, Null, Null, Record [97, 1, 0, 0, 0],
       Record [98, 1, 0, 0, 0], Record [99, 1, 0, 0, 0], Record [100, 1, 0, 0, 0],
       Record [101, 1, 0, 0, 0], Null, Null]) (Some [97]) (Some [2, 0, 0, 0]) True True =
     Some (Inr (ICS_OK, char_int_map 5 29 [Null, Null, Null, Null, Null, Null, Null, Null, Null, Null,
       Record [97, 2, 0, 0, 0], Record [98, 1, 0, 0, 0], Record [99, 1, 0, 0, 0],
       Record [100, 1, 0, 0, 0], Record [101, 1, 0, 0, 0], Null, Null, Null, Null, Null, Null,
       Null, Null, Null, Null, Null, Null, Null, Null]))"
  by (simp add: ev tagged_map_def first_byte_key_def)

lemma find_hole_EXISTS_D:
  assumes "find_hole m (Some key) = Some (Inr (ICS_EXISTS, index))"
  shows "\<exists>bs k ksz cand. get_key m (Some key) = Inr (k, ksz) \<and> unat index < length (arr m)
           \<and> arr m ! unat index = Record bs
           \<and> get_key m (Some bs) = Inr (cand, ksz) \<and> ics_equal cand k ksz = Inr True"
proof -
  from assms obtain k ksz h where gk: "get_key m (Some key) = Inr (k, ksz)"
    and lp: "find_hole_loop m k ksz h = Some (Inr (ICS_EXISTS, index))"
    by (auto simp: find_hole_def split: sum.splits prod.splits)
  from find_hole_loop_result [OF lp] gk show ?thesis by auto
qed

text \<open>
  C4, amended. When the map is not overloaded on entry and \<^verbatim>\<open>find_hole\<close> reports the key
  as existing at a slot, put returns ICS_OK and changes nothing but the record of that
  slot: count, capacity and every other slot are unchanged; the record's value bytes
  become the supplied value and its key bytes the supplied key, which without a
  resolver are the bytes already stored.
\<close>

theorem put_existing_rewrites_record:
  assumes ov: "is_overloaded m = Inr False"
    and fh: "find_hole m (Some key) = Some (Inr (ICS_EXISTS, index))"
    and rec: "arr m ! unat index = Record bs"
    and ks: "unat (keysize m) \<le> length key"
    and vs: "unat (valsize m) \<le> length val"
    and es: "unat (keysize m) + unat (valsize m) \<le> length bs"
  shows "icsmap_put m (Some key) (Some val) alloc_arr alloc_entry =
           Some (Inr (ICS_OK, m\<lparr>arr := (arr m)[unat index :=
              Record (take (unat (keysize m)) key @ take (unat (valsize m)) val
                      @ drop (unat (keysize m) + unat (valsize m)) bs)]\<rparr>))
         \<and> (get_key_fn m = None \<longrightarrow> take (unat (keysize m)) key = take (unat (keysize m)) bs)"
proof
  show "icsmap_put m (Some key) (Some val) alloc_arr alloc_entry =
           Some (Inr (ICS_OK, m\<lparr>arr := (arr m)[unat index :=
              Record (take (unat (keysize m)) key @ take (unat (valsize m)) val
                      @ drop (unat (keysize m) + unat (valsize m)) bs)]\<rparr>))"
    using ov fh rec init_map_entry_buffers [OF ks vs es]
    by (simp add: icsmap_put_def)
next
  show "get_key_fn m = None \<longrightarrow> take (unat (keysize m)) key = take (unat (keysize m)) bs"
  proof
    assume nr: "get_key_fn m = None"
    from find_hole_EXISTS_D [OF fh] rec nr
    have "ics_equal (Some bs) (Some key) (unat (keysize m)) = Inr True"
      by (auto simp: get_key_def)
    then show "take (unat (keysize m)) key = take (unat (keysize m)) bs"
      using ics_equal_buffers [of "unat (keysize m)" bs key] ks es by simp
  qed
qed

theorem put_existing_rewrites_record_witness:
  "is_overloaded (char_int_map 1 13 [Null, Null, Null, Null, Null, Null, Record [97, 1, 0, 0, 0],
       Null, Null, Null, Null, Null, Null]) = Inr False
   \<and> find_hole (char_int_map 1 13 [Null, Null, Null, Null, Null, Null, Record [97, 1, 0, 0, 0],
       Null, Null, Null, Null, Null, Null]) (Some [97]) = Some (Inr (ICS_EXISTS, 6))
   \<and> icsmap_put (char_int_map 1 13 [Null, Null, Null, Null, Null, Null, Record [97, 1, 0, 0, 0],
       Null, Null, Null, Null, Null, Null]) (Some [97]) (Some [3, 0, 0, 0]) True True =
     Some (Inr (ICS_OK, char_int_map 1 13 [Null, Null, Null, Null, Null, Null, Record [97, 3, 0, 0, 0],
       Null, Null, Null, Null, Null, Null]))"
proof -
  let ?m = "char_int_map 1 13 [Null, Null, Null, Null, Null, Null, Record [97, 1, 0, 0, 0],
       Null, Null, Null, Null, Null, Null]"
  have ov: "is_overloaded ?m = Inr False" by (simp add: ev)
  have fh: "find_hole ?m (Some [97]) = Some (Inr (ICS_EXISTS, 6))" by (simp add: ev)
  have rec: "arr ?m ! unat (6 :: u32) = Record [97, 1, 0, 0, 0]" by (simp add: ev)
  have ks: "unat (keysize ?m) \<le> length [97 :: u8]" by (simp add: ev)
  have vs: "unat (valsize ?m) \<le> length [3, 0, 0, 0 :: u8]" by (simp add: ev)
  have es: "unat (keysize ?m) + unat (valsize ?m) \<le> length [97, 1, 0, 0, 0 :: u8]"
    by (simp add: ev)
  have e: "?m\<lparr>arr := (arr ?m)[unat (6 :: u32) :=
              Record (take (unat (keysize ?m)) [97] @ take (unat (valsize ?m)) [3, 0, 0, 0]
                      @ drop (unat (keysize ?m) + unat (valsize ?m)) [97, 1, 0, 0, 0])]\<rparr>
      = char_int_map 1 13 [Null, Null, Null, Null, Null, Null, Record [97, 3, 0, 0, 0],
          Null, Null, Null, Null, Null, Null]"
    by (simp add: ev)
  from put_existing_rewrites_record [OF ov fh rec ks vs es, of True True]
  have "icsmap_put ?m (Some [97]) (Some [3, 0, 0, 0]) True True =
     Some (Inr (ICS_OK, char_int_map 1 13 [Null, Null, Null, Null, Null, Null, Record [97, 3, 0, 0, 0],
       Null, Null, Null, Null, Null, Null]))"
    unfolding e by blast
  with ov fh show ?thesis by blast
qed

section \<open>Iteration and export\<close>













section \<open>Allocation failure in put\<close>












section \<open>Probe sequences\<close>

lemma probe_slot_0 [simp]: "probe_slot m i 0 = i"
  by (simp add: probe_slot_def)
























section \<open>Keys seen through a resolver\<close>




end
